theory Spec2Isabelle
  imports Complex_Main
begin

section \<open>The attribute editor of ViTables (vitables/nodeProperties/attrEditor.py)\<close>

text \<open>
  The module validates the rows of the user attributes table of the Properties dialog
  (\<open>checkAttributes\<close>) and writes the accepted rows to the attribute set instance of a
  node (\<open>setAttributes\<close>). The embedding follows the Python source function by function.
  What the source takes from the interpreter and from numpy (\<open>long\<close>, \<open>float\<close>,
  \<open>eval\<close>, the \<open>numpy.array(v).astype(t)[()]\<close> construction) is a parameter of the
  model, collected in the record \<open>runtime\<close>; the attribute set instance is a parameter
  too, collected in the record \<open>asi_ops\<close>.
\<close>

subsection \<open>Exceptions\<close>

text \<open>
  An \<open>except C\<close> clause catches by class, so an exception is modelled by the class the
  source's handlers tell apart: \<open>IndexError\<close>, \<open>ValueError\<close> (with its subclasses, such
  as \<open>UnicodeEncodeError\<close>), \<open>TypeError\<close>, and every other exception.
\<close>

datatype exc = IndexError | ValueError | TypeError | OtherException

subsection \<open>Strings\<close>

definition startswith :: "string \<Rightarrow> string \<Rightarrow> bool" where
  "startswith s p = (take (length p) s = p)"

definition endswith :: "string \<Rightarrow> string \<Rightarrow> bool" where
  "endswith s p = (length p \<le> length s \<and> drop (length s - length p) s = p)"

text \<open>Python's \<open>s[i:j]\<close>: a negative index counts from the end, and both are clamped.\<close>

definition py_slice :: "int \<Rightarrow> int \<Rightarrow> 'a list \<Rightarrow> 'a list" where
  "py_slice i j xs =
     (let n = int (length xs);
          a = (if i < 0 then max 0 (n + i) else min i n);
          b = (if j < 0 then max 0 (n + j) else min j n)
      in take (nat (b - a)) (drop (nat a) xs))"

text \<open>The decimal text of a natural number, as \<open>%i\<close> prints it.\<close>

fun str_of_nat :: "nat \<Rightarrow> string" where
  "str_of_nat n =
     (if n < 10 then [''0123456789'' ! n]
      else str_of_nat (n div 10) @ [''0123456789'' ! (n mod 10)])"

declare str_of_nat.simps [simp del]

subsection \<open>The interpreter and numpy\<close>

text \<open>A Python float: a finite value, an infinity or a NaN.\<close>

datatype pyfloat = Finite real | PlusInf | MinusInf | NaN

text \<open>\<open>value < bound\<close> and \<open>value > bound\<close> for a finite bound; both are false on NaN.\<close>

fun float_lt :: "pyfloat \<Rightarrow> real \<Rightarrow> bool" where
  "float_lt (Finite x) b = (x < b)"
| "float_lt MinusInf b = True"
| "float_lt PlusInf b = False"
| "float_lt NaN b = False"

fun float_gt :: "pyfloat \<Rightarrow> real \<Rightarrow> bool" where
  "float_gt (Finite x) b = (x > b)"
| "float_gt PlusInf b = True"
| "float_gt MinusInf b = False"
| "float_gt NaN b = False"

text \<open>
  \<open>py_long s\<close> is \<open>long(s)\<close>, \<open>py_float s\<close> is \<open>float(s)\<close>, \<open>py_eval s\<close> is
  \<open>eval(s)\<close>, and \<open>np_astype v t\<close> is \<open>numpy.array(v).astype(t)[()]\<close>; each returns
  its value or the exception it raises.

  A \<open>Set\<close> is iterated in the order of its hash table, which the language leaves
  open. \<open>set_rank xs ys x\<close> is the place the interpreter gives the name \<open>x\<close> when it
  iterates over \<open>Set(xs) - Set(ys)\<close>: the names come out by increasing rank, so every
  order of iteration is the order of some \<open>set_rank\<close>.
\<close>

record 'v runtime =
  py_long :: "string \<Rightarrow> exc + int"
  py_float :: "string \<Rightarrow> exc + pyfloat"
  py_eval :: "string \<Rightarrow> exc + 'v"
  np_astype :: "string \<Rightarrow> string \<Rightarrow> exc + 'v"
  set_rank :: "string list \<Rightarrow> string list \<Rightarrow> string \<Rightarrow> nat"

text \<open>The numpy scalar types of \<open>dtypes_map\<close>, by kind and width in bits.\<close>

datatype nptype = SignedInt nat | UnsignedInt nat | Floating nat

definition dtypes_map :: "string \<Rightarrow> nptype option" where
  "dtypes_map = map_of
     [(''int8'', SignedInt 8), (''int16'', SignedInt 16),
      (''int32'', SignedInt 32), (''int64'', SignedInt 64),
      (''uint8'', UnsignedInt 8), (''uint16'', UnsignedInt 16),
      (''uint32'', UnsignedInt 32), (''uint64'', UnsignedInt 64),
      (''float32'', Floating 32), (''float64'', Floating 64)]"

text \<open>
  \<open>numpy.iinfo(t)\<close> as the pair (min, max); it raises \<open>ValueError\<close> on a type that is
  not an integer type.
\<close>

fun iinfo :: "nptype \<Rightarrow> exc + int \<times> int" where
  "iinfo (SignedInt b) = Inr (- (2 ^ (b - 1)), 2 ^ (b - 1) - 1)"
| "iinfo (UnsignedInt b) = Inr (0, 2 ^ b - 1)"
| "iinfo (Floating b) = Inl ValueError"

text \<open>
  \<open>numpy.finfo(t)\<close> as the pair (min, max) of the largest finite values of the IEEE
  single and double formats; it raises \<open>ValueError\<close> on a type that is not inexact.
\<close>

fun finfo :: "nptype \<Rightarrow> exc + real \<times> real" where
  "finfo (Floating b) =
     (if b = 32 then Inr (- (2 ^ 128 - 2 ^ 104), 2 ^ 128 - 2 ^ 104)
      else Inr (- (2 ^ 1024 - 2 ^ 971), 2 ^ 1024 - 2 ^ 971))"
| "finfo (SignedInt b) = Inl ValueError"
| "finfo (UnsignedInt b) = Inl ValueError"

subsection \<open>checkSyntax\<close>

text \<open>
  \<open>value[0]\<close> is read before the \<open>try\<close>, so on the empty string the \<open>IndexError\<close> of
  the indexing leaves the function. The bare \<open>except\<close> catches whatever \<open>eval\<close> raises.
\<close>

definition checkSyntax :: "'v runtime \<Rightarrow> string \<Rightarrow> exc + bool" where
  "checkSyntax rt val =
     (case val of
        [] \<Rightarrow> Inl IndexError
      | c # _ \<Rightarrow>
          if c \<in> set [CHR 0x27, CHR 0x22] then Inr False
          else (case py_eval rt val of Inl _ \<Rightarrow> Inr False | Inr _ \<Rightarrow> Inr True))"

subsection \<open>formatStrValue\<close>

text \<open>The \<open>TypeError\<close> raised in the \<open>bool\<close> branch is caught and \<open>None\<close> returned.\<close>

definition formatStrValue :: "string \<Rightarrow> string \<Rightarrow> string option" where
  "formatStrValue dtype str_value =
     (if dtype = ''bool'' then
        (if str_value \<in> set [''1'', ''TRUE'', ''True'', ''true''] then Some ''1''
         else if str_value \<in> set [''0'', ''FALSE'', ''False'', ''false''] then Some ''0''
         else None)
      else if startswith dtype ''complex'' then
        (if startswith str_value ''('' \<and> endswith str_value '')''
         then Some (py_slice 1 (- 1) str_value)
         else Some str_value)
      else Some str_value)"

subsection \<open>checkOverflow\<close>

definition checkOverflow :: "'v runtime \<Rightarrow> string \<Rightarrow> string \<Rightarrow> exc + string" where
  "checkOverflow rt dtype str_value =
     (case dtypes_map dtype of
        None \<Rightarrow> Inr str_value
      | Some t \<Rightarrow>
          if startswith dtype ''float'' then
            (case finfo t of
               Inl e \<Rightarrow> Inl e
             | Inr (min_value, max_value) \<Rightarrow>
                 (case py_float rt str_value of
                    Inl e \<Rightarrow> Inl e
                  | Inr v \<Rightarrow>
                      if float_lt v min_value \<or> float_gt v max_value then Inl ValueError
                      else Inr str_value))
          else
            (case iinfo t of
               Inl e \<Rightarrow> Inl e
             | Inr (min_value, max_value) \<Rightarrow>
                 (case py_long rt str_value of
                    Inl e \<Rightarrow> Inl e
                  | Inr v \<Rightarrow>
                      if v < min_value \<or> v > max_value then Inl ValueError
                      else Inr str_value)))"

subsection \<open>The edited attributes\<close>

text \<open>
  A row of the table is the tuple (name, value, dtype, multidim). \<open>edited_attrs\<close> is a
  dictionary from the row numbers \<open>0, 1, ...\<close> to the rows; it is modelled by the list of
  its rows, the key of a row being its position. \<open>keys()\<close> of a dictionary whose keys
  are the first integers lists them in increasing order.
\<close>

type_synonym row = "string \<times> string \<times> string \<times> bool"

datatype pykey = IntKey nat | UnicodeKey string

definition keys :: "row list \<Rightarrow> pykey list" where
  "keys edited_attrs = map IntKey [0..<length edited_attrs]"

definition has_key :: "row list \<Rightarrow> pykey \<Rightarrow> bool" where
  "has_key edited_attrs k = (k \<in> set (keys edited_attrs))"

text \<open>
  The constructor reads the rows of the table, and appends the row of the TITLE
  attribute when a title is given.
\<close>

definition AttrEditor_init :: "string option \<Rightarrow> row list \<Rightarrow> row list" where
  "AttrEditor_init title user_table =
     (case title of
        None \<Rightarrow> user_table
      | Some t \<Rightarrow> user_table @ [(''TITLE'', t, ''string'', False)])"

subsection \<open>Messages\<close>

text \<open>
  The messages are the source texts with their argument filled in; the translator of
  the application is taken to return the source text.
\<close>

definition dtype_error :: "string \<Rightarrow> string" where
  "dtype_error name =
     [CHR 0x0A] @ ''Error: '' @ [CHR 0x22] @ name @ [CHR 0x22]
       @ '' value mismatches its data type.''"

definition range_error :: "string \<Rightarrow> string" where
  "range_error name =
     [CHR 0x0A] @ ''Error: '' @ [CHR 0x22] @ name @ [CHR 0x22]
       @ '' value is out of range.''"

definition syntax_error :: "string \<Rightarrow> string" where
  "syntax_error name =
     [CHR 0x0A] @ ''Error: '' @ [CHR 0x22] @ name @ [CHR 0x22]
       @ '' cannot be converted to a Python object.''"

definition empty_name_error :: "nat \<Rightarrow> string" where
  "empty_name_error n =
     [CHR 0x0A] @ ''Error: empty field Name in the row '' @ str_of_nat n"

definition repeated_name_error :: "string \<Rightarrow> string" where
  "repeated_name_error name =
     [CHR 0x0A] @ ''Error: attribute name '' @ [CHR 0x22] @ name @ [CHR 0x22]
       @ '' is repeated.''"

subsection \<open>checkAttributes\<close>

text \<open>
  The method returns a pair (accepted, message), or an exception leaves it; on the way
  it overwrites rows of \<open>edited_attrs\<close>. The model returns the rows as the method
  leaves them, and \<open>Inr\<close> of the returned pair or \<open>Inl\<close> of the exception.
\<close>

type_synonym verdict = "bool \<times> string option"

text \<open>The first loop: the number of the first row whose name is empty.\<close>

fun empty_name_row :: "row list \<Rightarrow> nat \<Rightarrow> nat option" where
  "empty_name_row [] row = None"
| "empty_name_row ((name, rest) # rows) row =
     (if name = [] then Some row else empty_name_row rows (row + 1))"

text \<open>The second loop: the first name that is already in \<open>names_list\<close>.\<close>

fun repeated_name :: "row list \<Rightarrow> string list \<Rightarrow> string option" where
  "repeated_name [] names_list = None"
| "repeated_name ((name, rest) # rows) names_list =
     (if name \<notin> set names_list then repeated_name rows (names_list @ [name])
      else Some name)"

text \<open>The \<open>try\<close> block of the third loop: the overflow check, then the conversion.\<close>

definition try_convert :: "'v runtime \<Rightarrow> string \<Rightarrow> string \<Rightarrow> exc + string" where
  "try_convert rt dtype val =
     (case checkOverflow rt dtype val of
        Inl e \<Rightarrow> Inl e
      | Inr val' \<Rightarrow>
          (case np_astype rt val' dtype of Inl e \<Rightarrow> Inl e | Inr _ \<Rightarrow> Inr val'))"

text \<open>
  The body of the third loop on one row: \<open>Inr\<close> of the row to store when the row
  passes (a multidimensional row is skipped and stays as it is), \<open>Inl\<close> of what
  ends the method otherwise.
\<close>

definition check_row :: "'v runtime \<Rightarrow> row \<Rightarrow> (exc + verdict) + row" where
  "check_row rt r =
     (case r of (name, val, dtype, multidim) \<Rightarrow>
        if multidim then Inr r
        else if dtype = ''python'' then
          (case checkSyntax rt val of
             Inl e \<Rightarrow> Inl (Inl e)
           | Inr ok \<Rightarrow>
               if \<not> ok then Inl (Inr (False, Some (syntax_error name)))
               else Inr (name, val, dtype, multidim))
        else
          (case formatStrValue dtype val of
             None \<Rightarrow> Inl (Inr (False, Some (dtype_error name)))
           | Some val1 \<Rightarrow>
               (case try_convert rt dtype val1 of
                  Inl e \<Rightarrow>
                    if e = IndexError then Inl (Inr (False, Some (range_error name)))
                    else if e = ValueError then Inl (Inr (False, Some (dtype_error name)))
                    else Inl (Inl e)
                | Inr val2 \<Rightarrow> Inr (name, val2, dtype, multidim))))"

text \<open>The third loop: the rows before the one that ends the method are overwritten.\<close>

fun check_rows :: "'v runtime \<Rightarrow> row list \<Rightarrow> row list \<times> (exc + verdict)" where
  "check_rows rt [] = ([], Inr (True, None))"
| "check_rows rt (r # rows) =
     (case check_row rt r of
        Inl out \<Rightarrow> (r # rows, out)
      | Inr r' \<Rightarrow>
          (case check_rows rt rows of (rows', out) \<Rightarrow> (r' # rows', out)))"

definition checkAttributes :: "'v runtime \<Rightarrow> row list \<Rightarrow> row list \<times> (exc + verdict)" where
  "checkAttributes rt edited_attrs =
     (case empty_name_row edited_attrs 0 of
        Some row \<Rightarrow> (edited_attrs, Inr (False, Some (empty_name_error (row + 1))))
      | None \<Rightarrow>
          (case repeated_name edited_attrs [] of
             Some name \<Rightarrow> (edited_attrs, Inr (False, Some (repeated_name_error name)))
           | None \<Rightarrow> check_rows rt edited_attrs))"

subsection \<open>setAttributes\<close>

text \<open>
  The attribute set instance: \<open>v_attrnamesuser\<close> lists the names of its user
  attributes, \<open>f_delAttr\<close> deletes an attribute and \<open>set_attr\<close> is \<open>setattr\<close>. A call
  returns the instance as it leaves it, and the exception it raises, if any.
\<close>

record ('s, 'v) asi_ops =
  v_attrnamesuser :: "'s \<Rightarrow> string list"
  f_delAttr :: "'s \<Rightarrow> string \<Rightarrow> 's \<times> exc option"
  set_attr :: "'s \<Rightarrow> string \<Rightarrow> 'v \<Rightarrow> 's \<times> exc option"

text \<open>
  The state of a commit: the instance, the calls made on it so far, and the
  exceptions handed to \<open>vitables.utils.formatExceptionInfo\<close>.
\<close>

datatype 'v call = DelAttr string | SetAttr string 'v

record ('s, 'v) commit =
  asi :: 's
  calls :: "'v call list"
  reported :: "exc list"

text \<open>
  The attributes to delete, in the order in which the \<open>Set\<close> difference is iterated:
  the names of the difference, sorted by the rank the runtime gives them.
\<close>

definition deleted_attrs ::
  "'v runtime \<Rightarrow> ('s, 'v) asi_ops \<Rightarrow> 's \<Rightarrow> row list \<Rightarrow> string list" where
  "deleted_attrs rt ops s edited_attrs =
     (let all_attrs =
            (if has_key edited_attrs (UnicodeKey ''TITLE'')
             then v_attrnamesuser ops s @ [''TITLE'']
             else v_attrnamesuser ops s);
          edited_attrs_names = map fst edited_attrs
      in sort_key (set_rank rt all_attrs edited_attrs_names)
           (filter (\<lambda>attr. attr \<notin> set edited_attrs_names) (remdups all_attrs)))"

text \<open>
  One pass of the first loop and the \<open>try\<close> of the second: the call is made, and an
  exception it raises is caught and handed to the error report.
\<close>

definition del_step :: "('s, 'v) asi_ops \<Rightarrow> ('s, 'v) commit \<Rightarrow> string \<Rightarrow> ('s, 'v) commit" where
  "del_step ops c attr =
     (case f_delAttr ops (asi c) attr of
        (s', r) \<Rightarrow>
          \<lparr>asi = s', calls = calls c @ [DelAttr attr],
           reported = (case r of None \<Rightarrow> reported c | Some e \<Rightarrow> reported c @ [e])\<rparr>)"

definition set_step ::
  "('s, 'v) asi_ops \<Rightarrow> ('s, 'v) commit \<Rightarrow> string \<Rightarrow> 'v \<Rightarrow> ('s, 'v) commit" where
  "set_step ops c name v =
     (case set_attr ops (asi c) name v of
        (s', r) \<Rightarrow>
          \<lparr>asi = s', calls = calls c @ [SetAttr name v],
           reported = (case r of None \<Rightarrow> reported c | Some e \<Rightarrow> reported c @ [e])\<rparr>)"

fun delete_loop :: "('s, 'v) asi_ops \<Rightarrow> ('s, 'v) commit \<Rightarrow> string list \<Rightarrow> ('s, 'v) commit" where
  "delete_loop ops c [] = c"
| "delete_loop ops c (attr # attrs) = delete_loop ops (del_step ops c attr) attrs"

text \<open>The value written for a row: \<open>eval\<close> of a Python row, the numpy scalar otherwise.\<close>

definition row_value :: "'v runtime \<Rightarrow> string \<Rightarrow> string \<Rightarrow> exc + 'v" where
  "row_value rt dtype val =
     (if dtype = ''python'' then py_eval rt val else np_astype rt val dtype)"

text \<open>
  The second loop. The value is built outside the \<open>try\<close>: an exception there leaves
  the method, and is returned beside the state reached.
\<close>

fun write_loop ::
  "'v runtime \<Rightarrow> ('s, 'v) asi_ops \<Rightarrow> ('s, 'v) commit \<Rightarrow> row list
     \<Rightarrow> ('s, 'v) commit \<times> exc option" where
  "write_loop rt ops c [] = (c, None)"
| "write_loop rt ops c ((name, val, dtype, multidim) # rows) =
     (if multidim then write_loop rt ops c rows
      else
        (case row_value rt dtype val of
           Inl e \<Rightarrow> (c, Some e)
         | Inr v \<Rightarrow> write_loop rt ops (set_step ops c name v) rows))"

definition setAttributes ::
  "'v runtime \<Rightarrow> ('s, 'v) asi_ops \<Rightarrow> 's \<Rightarrow> row list \<Rightarrow> ('s, 'v) commit \<times> exc option" where
  "setAttributes rt ops s edited_attrs =
     write_loop rt ops
       (delete_loop ops \<lparr>asi = s, calls = [], reported = []\<rparr>
          (deleted_attrs rt ops s edited_attrs))
       edited_attrs"

subsection \<open>The rows and the calls of the specification\<close>

text \<open>
  The normalized form of a row: the row that the third loop of \<open>checkAttributes\<close>
  stores when the row passes, which holds the value as \<open>formatStrValue\<close> returns it.
\<close>

definition normalized :: "row \<Rightarrow> row" where
  "normalized r =
     (case r of (name, val, dtype, multidim) \<Rightarrow>
        if multidim then r
        else if dtype = ''python'' then r
        else (case formatStrValue dtype val of
                None \<Rightarrow> r
              | Some val' \<Rightarrow> (name, val', dtype, multidim)))"

text \<open>
  A scalar row of a complex type whose value starts with an opening and ends with a
  closing parenthesis.
\<close>

definition wrapped_complex :: "row \<Rightarrow> bool" where
  "wrapped_complex r =
     (case r of (name, val, dtype, multidim) \<Rightarrow>
        \<not> multidim \<and> startswith dtype ''complex''
        \<and> startswith val ''('' \<and> endswith val '')'')"

text \<open>The rows that are not multidimensional.\<close>

definition scalar_rows :: "row list \<Rightarrow> row list" where
  "scalar_rows rows = filter (\<lambda>r. \<not> snd (snd (snd r))) rows"

text \<open>The value of a scalar row can be built: \<open>eval\<close> or the conversion returns.\<close>

definition builds :: "'v runtime \<Rightarrow> row \<Rightarrow> bool" where
  "builds rt r = (case r of (name, val, dtype, multidim) \<Rightarrow>
                    if multidim then True else \<not> isl (row_value rt dtype val))"

text \<open>One write for every scalar row, in the order of the rows.\<close>

definition planned_writes :: "'v runtime \<Rightarrow> row list \<Rightarrow> 'v call list" where
  "planned_writes rt rows =
     concat (map (\<lambda>r. case r of (name, val, dtype, multidim) \<Rightarrow>
                     (case row_value rt dtype val of
                        Inl e \<Rightarrow> []
                      | Inr v \<Rightarrow> [SetAttr name v]))
               (scalar_rows rows))"

text \<open>
  The effect of a list of calls on the instance, one after the other: the instance
  reached, and for every call what it raised, \<open>None\<close> when it returned.
\<close>

definition run_call :: "('s, 'v) asi_ops \<Rightarrow> 's \<Rightarrow> 'v call \<Rightarrow> 's \<times> exc option" where
  "run_call ops s c =
     (case c of DelAttr attr \<Rightarrow> f_delAttr ops s attr | SetAttr name v \<Rightarrow> set_attr ops s name v)"

fun run_calls ::
  "('s, 'v) asi_ops \<Rightarrow> 's \<Rightarrow> 'v call list \<Rightarrow> 's \<times> exc option list" where
  "run_calls ops s [] = (s, [])"
| "run_calls ops s (c # cs) =
     (case run_call ops s c of
        (s', r) \<Rightarrow> (case run_calls ops s' cs of (s'', rs) \<Rightarrow> (s'', r # rs)))"

fun is_del :: "'v call \<Rightarrow> bool" where
  "is_del (DelAttr attr) = True"
| "is_del (SetAttr name v) = False"

fun call_name :: "'v call \<Rightarrow> string" where
  "call_name (DelAttr attr) = attr"
| "call_name (SetAttr name v) = name"

subsection \<open>Reference values of the specification\<close>

text \<open>
  The least and the greatest value of each fixed-width integer type, as the
  specification names them.
\<close>

definition spec_int_range :: "(string \<times> int \<times> int) list" where
  "spec_int_range =
     [(''int8'', - 128, 127), (''int16'', - 32768, 32767),
      (''int32'', - 2147483648, 2147483647),
      (''int64'', - 9223372036854775808, 9223372036854775807),
      (''uint8'', 0, 255), (''uint16'', 0, 65535), (''uint32'', 0, 4294967295),
      (''uint64'', 0, 18446744073709551615)]"

subsection \<open>A sample runtime and a sample attribute set instance\<close>

text \<open>
  The worked examples run on a runtime that knows the decimal integer literals, the
  types \<open>string\<close> and \<open>bool\<close>, the eight integer types and the complex types, and
  the complex literal \<open>1+2j\<close>, bare or in parentheses (\<open>complex\<close> of Python 2.6 and
  later reads both). A value is kept as its type name and its text. Every name has
  the rank 0, so a \<open>Set\<close> is iterated in the order in which its names were given.
\<close>

datatype sample_value = NumpyScalar string string | PyObject string

definition is_digits :: "string \<Rightarrow> bool" where
  "is_digits s = (s \<noteq> [] \<and> list_all (\<lambda>c. c \<in> set ''0123456789'') s)"

definition dec_nat :: "string \<Rightarrow> nat" where
  "dec_nat s = foldl (\<lambda>a c. 10 * a + (of_char c - 48)) 0 s"

definition parse_int :: "string \<Rightarrow> int option" where
  "parse_int s =
     (case s of
        [] \<Rightarrow> None
      | c # ds \<Rightarrow>
          if c = CHR ''-'' then (if is_digits ds then Some (- int (dec_nat ds)) else None)
          else if is_digits s then Some (int (dec_nat s)) else None)"

definition sample_astype :: "string \<Rightarrow> string \<Rightarrow> exc + sample_value" where
  "sample_astype val dtype =
     (if dtype = ''string'' then Inr (NumpyScalar dtype val)
      else if startswith dtype ''complex'' then
        (if val \<in> set [''1+2j'', ''(1+2j)''] then Inr (NumpyScalar dtype val)
         else Inl ValueError)
      else if dtype \<in> set (''bool'' # map fst spec_int_range) then
        (case parse_int val of
           None \<Rightarrow> Inl ValueError
         | Some n \<Rightarrow> Inr (NumpyScalar dtype val))
      else Inl TypeError)"

definition sample_rt :: "sample_value runtime" where
  "sample_rt =
     \<lparr>py_long = (\<lambda>s. case parse_int s of None \<Rightarrow> Inl ValueError | Some n \<Rightarrow> Inr n),
      py_float =
        (\<lambda>s. case parse_int s of
                None \<Rightarrow> Inl ValueError
              | Some n \<Rightarrow> Inr (Finite (of_int n))),
      py_eval =
        (\<lambda>s. case parse_int s of
                None \<Rightarrow> Inl OtherException
              | Some n \<Rightarrow> Inr (PyObject s)),
      np_astype = sample_astype,
      set_rank = (\<lambda>all_attrs edited_attrs_names attr. 0)\<rparr>"

text \<open>
  The sample instance keeps its attributes in a list. TITLE, CLASS and VERSION are
  system attributes, which the list of user attribute names leaves out. Deleting an
  attribute that is missing raises; so does deleting a name of \<open>bad_del\<close> and setting
  a name of \<open>bad_set\<close>, for the examples of a failing store.
\<close>

type_synonym sample_asi = "(string \<times> sample_value) list"

definition sys_attr_names :: "string list" where
  "sys_attr_names = [''CLASS'', ''VERSION'', ''TITLE'']"

fun store_set :: "string \<Rightarrow> 'v \<Rightarrow> (string \<times> 'v) list \<Rightarrow> (string \<times> 'v) list" where
  "store_set n v [] = [(n, v)]"
| "store_set n v ((k, w) # s) = (if k = n then (k, v) # s else (k, w) # store_set n v s)"

definition sample_ops :: "string list \<Rightarrow> string list \<Rightarrow> (sample_asi, sample_value) asi_ops" where
  "sample_ops bad_del bad_set =
     \<lparr>v_attrnamesuser = (\<lambda>s. filter (\<lambda>n. n \<notin> set sys_attr_names) (map fst s)),
      f_delAttr =
        (\<lambda>s n. if n \<in> set bad_del then (s, Some OtherException)
               else if n \<in> set (map fst s) then (filter (\<lambda>p. fst p \<noteq> n) s, None)
               else (s, Some OtherException)),
      set_attr =
        (\<lambda>s n v. if n \<in> set bad_set then (s, Some OtherException)
                 else (store_set n v s, None))\<rparr>"

text \<open>
  A store that fails: deleting a name of \<open>del_exc\<close> and setting a name of \<open>set_exc\<close>
  raises the exception listed with the name and leaves the instance as it is.
\<close>

definition raising_ops ::
  "(string \<times> exc) list \<Rightarrow> (string \<times> exc) list \<Rightarrow> (sample_asi, sample_value) asi_ops" where
  "raising_ops del_exc set_exc =
     \<lparr>v_attrnamesuser = v_attrnamesuser (sample_ops [] []),
      f_delAttr =
        (\<lambda>s n. case map_of del_exc n of
                 Some e \<Rightarrow> (s, Some e)
               | None \<Rightarrow> f_delAttr (sample_ops [] []) s n),
      set_attr =
        (\<lambda>s n v. case map_of set_exc n of
                   Some e \<Rightarrow> (s, Some e)
                 | None \<Rightarrow> set_attr (sample_ops [] []) s n v)\<rparr>"

definition sample_store :: sample_asi where
  "sample_store =
     [(''A'', NumpyScalar ''int8'' ''1''), (''B'', NumpyScalar ''int8'' ''2''),
      (''TITLE'', NumpyScalar ''string'' ''old title'')]"

text \<open>
  The commit scenario of the specification: the instance holds A, B and TITLE, the
  table holds A and C, and no title is given.
\<close>

definition scenario_rows :: "row list" where
  "scenario_rows =
     AttrEditor_init None [(''A'', ''5'', ''int8'', False), (''C'', ''7'', ''int8'', False)]"

section \<open>Properties\<close>

subsection \<open>Strings and integer ranges\<close>

lemma py_slice_strip: "py_slice 1 (- 1) xs = butlast (tl xs)"
proof (cases xs)
  case Nil
  then show ?thesis by (simp add: py_slice_def)
next
  case (Cons x ys)
  then show ?thesis
    by (cases ys) (simp_all add: py_slice_def butlast_conv_take)
qed

lemma wrapped_decompose:
  assumes "startswith s ''(''" and "endswith s '')''"
  shows "s = CHR ''('' # butlast (tl s) @ [CHR '')'']"
proof -
  from assms(1) obtain t where s: "s = CHR ''('' # t"
    by (cases s) (auto simp: startswith_def)
  show ?thesis
  proof (cases t rule: rev_cases)
    case Nil
    with assms(2) s show ?thesis by (simp add: endswith_def)
  next
    case (snoc u c)
    with assms(2) s show ?thesis by (simp add: endswith_def)
  qed
qed

lemma int_dtype_table:
  "list_all
     (\<lambda>(dtype, lo, hi).
        (case dtypes_map dtype of None \<Rightarrow> False | Some t \<Rightarrow> iinfo t = Inr (lo, hi))
        \<and> \<not> startswith dtype ''float'' \<and> lo \<le> hi)
     spec_int_range"
  by (simp add: spec_int_range_def dtypes_map_def startswith_def)

lemma int_dtype_info:
  assumes "(dtype, lo, hi) \<in> set spec_int_range"
  shows "\<exists>t. dtypes_map dtype = Some t \<and> iinfo t = Inr (lo, hi)"
    and "\<not> startswith dtype ''float''" and "lo \<le> hi"
proof -
  from int_dtype_table assms
  have *: "(case dtypes_map dtype of None \<Rightarrow> False | Some t \<Rightarrow> iinfo t = Inr (lo, hi))
        \<and> \<not> startswith dtype ''float'' \<and> lo \<le> hi"
    unfolding list_all_iff by blast
  from * show "\<exists>t. dtypes_map dtype = Some t \<and> iinfo t = Inr (lo, hi)"
    by (cases "dtypes_map dtype") simp_all
  from * show "\<not> startswith dtype ''float''" by simp
  from * show "lo \<le> hi" by simp
qed

lemma checkOverflow_int:
  assumes "(dtype, lo, hi) \<in> set spec_int_range" and "py_long rt s = Inr v"
  shows "checkOverflow rt dtype s = (if lo \<le> v \<and> v \<le> hi then Inr s else Inl ValueError)"
proof -
  from int_dtype_info [OF assms(1)] obtain t where
    "dtypes_map dtype = Some t" "iinfo t = Inr (lo, hi)" "\<not> startswith dtype ''float''"
    by blast
  with assms(2) show ?thesis
    by (auto simp: checkOverflow_def)
qed

lemma sample_long_255: "py_long sample_rt ''255'' = Inr 255"
  by (simp add: sample_rt_def parse_int_def is_digits_def dec_nat_def)

lemma sample_long_256: "py_long sample_rt ''256'' = Inr 256"
  by (simp add: sample_rt_def parse_int_def is_digits_def dec_nat_def)

subsection \<open>The value formatter\<close>

text \<open>
  C5, as amended. For the type \<open>bool\<close>, \<open>formatStrValue\<close> returns \<open>1\<close> exactly on the
  four spellings \<open>1\<close>, \<open>TRUE\<close>, \<open>True\<close>, \<open>true\<close>, returns \<open>0\<close> exactly on the four
  spellings \<open>0\<close>, \<open>FALSE\<close>, \<open>False\<close>, \<open>false\<close>, and returns \<open>None\<close>, the signal of a
  type mismatch, on every other string: the comparison is exact, so any other
  capitalisation of a token is rejected as well.
\<close>

theorem formatStrValue_bool_exact:
  "(formatStrValue ''bool'' v = Some ''1'' \<longleftrightarrow> v \<in> {''1'', ''TRUE'', ''True'', ''true''})
   \<and> (formatStrValue ''bool'' v = Some ''0'' \<longleftrightarrow> v \<in> {''0'', ''FALSE'', ''False'', ''false''})
   \<and> (formatStrValue ''bool'' v = None \<longleftrightarrow>
        v \<notin> {''1'', ''TRUE'', ''True'', ''true'', ''0'', ''FALSE'', ''False'', ''false''})
   \<and> formatStrValue ''bool'' v \<in> {Some ''1'', Some ''0'', None}"
  by (auto simp: formatStrValue_def)

text \<open>
  C5, as stated, has the tokens accepted whatever their case. The spelling \<open>tRUE\<close> of
  the token \<open>true\<close> is not accepted: the formatter returns \<open>None\<close> on it.
\<close>

theorem formatStrValue_bool_mixed_case: "formatStrValue ''bool'' ''tRUE'' = None"
  by (simp add: formatStrValue_def)

text \<open>
  C6. For a type whose name starts with \<open>complex\<close>, \<open>formatStrValue\<close> never fails. On a
  string that starts with an opening and ends with a closing parenthesis it returns
  the string without its first and its last character, so exactly one parenthesis
  is taken from each end; every other string is returned as it is.
\<close>

theorem formatStrValue_complex:
  assumes "startswith dtype ''complex''"
  shows "formatStrValue dtype s =
           Some (if startswith s ''('' \<and> endswith s '')'' then butlast (tl s) else s)
         \<and> (startswith s ''('' \<and> endswith s '')'' \<longrightarrow>
              s = CHR ''('' # butlast (tl s) @ [CHR '')''])"
proof -
  from assms have "dtype \<noteq> ''bool''"
    by (auto simp: startswith_def)
  then show ?thesis using assms
    by (auto simp: formatStrValue_def py_slice_strip dest: wrapped_decompose)
qed

theorem formatStrValue_complex_witness:
  "startswith ''complex128'' ''complex''
   \<and> formatStrValue ''complex128'' ''(1+2j)'' = Some ''1+2j''
   \<and> formatStrValue ''complex128'' ''1+2j'' = Some ''1+2j''"
proof -
  have h: "startswith ''complex128'' ''complex''" by (simp add: startswith_def)
  show ?thesis
    using h formatStrValue_complex [OF h, of "''(1+2j)''"]
      formatStrValue_complex [OF h, of "''1+2j''"]
    by (simp add: startswith_def endswith_def)
qed

subsection \<open>The overflow checker\<close>

text \<open>
  C4. For each of the eight fixed-width integer types, with least value \<open>lo\<close> and
  greatest value \<open>hi\<close>: on a string that \<open>long\<close> reads as \<open>lo\<close> or as \<open>hi\<close>,
  \<open>checkOverflow\<close> returns the string unchanged; on a string that \<open>long\<close> reads as
  \<open>hi + 1\<close> or as \<open>lo - 1\<close> it raises the exception of its out of range branch. In
  general it returns the string when the value lies between \<open>lo\<close> and \<open>hi\<close>, and
  raises otherwise.
\<close>

theorem checkOverflow_int_bounds:
  assumes "(dtype, lo, hi) \<in> set spec_int_range" and "py_long rt s = Inr v"
  shows "(v = lo \<or> v = hi \<longrightarrow> checkOverflow rt dtype s = Inr s)
         \<and> (v = hi + 1 \<or> v = lo - 1 \<longrightarrow> checkOverflow rt dtype s = Inl ValueError)
         \<and> checkOverflow rt dtype s = (if lo \<le> v \<and> v \<le> hi then Inr s else Inl ValueError)"
proof -
  from assms(1) have "lo \<le> hi"
    by (rule int_dtype_info)
  then show ?thesis using checkOverflow_int [OF assms]
    by auto
qed

theorem checkOverflow_int_bounds_witness:
  "(''uint8'', 0, 255) \<in> set spec_int_range
   \<and> py_long sample_rt ''255'' = Inr 255 \<and> py_long sample_rt ''256'' = Inr 256
   \<and> checkOverflow sample_rt ''uint8'' ''255'' = Inr ''255''
   \<and> checkOverflow sample_rt ''uint8'' ''256'' = Inl ValueError"
proof -
  have m: "(''uint8'', 0, 255) \<in> set spec_int_range"
    by (simp add: spec_int_range_def)
  show ?thesis
    using m sample_long_255 sample_long_256
      checkOverflow_int_bounds [OF m sample_long_255]
      checkOverflow_int_bounds [OF m sample_long_256]
    by simp
qed

subsection \<open>Failures of the validation\<close>

text \<open>
  C1, at the row \<open>(a, 256, uint8)\<close>. Whenever \<open>long\<close> reads \<open>256\<close> as 256,
  \<open>checkAttributes\<close> answers the out of range value with the message of a data type
  mismatch, which is not the out of range message: \<open>checkOverflow\<close> raises
  \<open>ValueError\<close>, and the handler that returns the out of range message catches
  \<open>IndexError\<close>.
\<close>

theorem out_of_range_reported_as_mismatch:
  assumes "py_long rt ''256'' = Inr 256"
  shows "checkAttributes rt [(''a'', ''256'', ''uint8'', False)]
           = ([(''a'', ''256'', ''uint8'', False)], Inr (False, Some (dtype_error ''a'')))
         \<and> dtype_error ''a'' \<noteq> range_error ''a''"
  using assms
  by (simp add: checkAttributes_def check_row_def formatStrValue_def startswith_def
      try_convert_def checkOverflow_def dtypes_map_def dtype_error_def range_error_def)

theorem out_of_range_reported_as_mismatch_witness:
  "py_long sample_rt ''256'' = Inr 256
   \<and> checkAttributes sample_rt [(''a'', ''256'', ''uint8'', False)]
       = ([(''a'', ''256'', ''uint8'', False)], Inr (False, Some (dtype_error ''a'')))"
  using sample_long_256 out_of_range_reported_as_mismatch [OF sample_long_256]
  by simp

text \<open>
  C3, at the empty string. \<open>checkSyntax\<close> raises \<open>IndexError\<close> on the empty string,
  whatever the runtime, and the exception leaves \<open>checkAttributes\<close> on a row of type
  \<open>python\<close> whose value is empty.
\<close>

theorem checkSyntax_empty_raises:
  "checkSyntax rt [] = Inl IndexError
   \<and> checkAttributes rt [(''x'', [], ''python'', False)]
       = ([(''x'', [], ''python'', False)], Inl IndexError)"
  by (simp add: checkSyntax_def checkAttributes_def check_row_def)

subsection \<open>The loops of the validation\<close>

lemma checkOverflow_same: "checkOverflow rt dtype s = Inr s' \<Longrightarrow> s' = s"
  by (auto simp: checkOverflow_def split: option.splits sum.splits if_splits prod.splits)

lemma try_convert_same: "try_convert rt dtype s = Inr s' \<Longrightarrow> s' = s"
  by (auto simp: try_convert_def split: sum.splits dest: checkOverflow_same)

lemma check_row_Inr: "check_row rt r = Inr r' \<Longrightarrow> r' = normalized r"
  by (cases r)
    (auto simp: check_row_def normalized_def split: if_splits sum.splits option.splits
      dest: try_convert_same)

lemma check_row_not_accept: "check_row rt r = Inl out \<Longrightarrow> out \<noteq> Inr (True, None)"
  by (cases r)
    (auto simp: check_row_def split: if_splits sum.splits option.splits)

lemma fst_normalized: "fst (normalized r) = fst r"
  by (cases r) (simp add: normalized_def split: option.splits)

lemma empty_name_row_first:
  assumes "i < length rows" and "fst (rows ! i) = []"
    and "list_all (\<lambda>r. fst r \<noteq> []) (take i rows)"
  shows "empty_name_row rows k = Some (k + i)"
  using assms
proof (induction rows arbitrary: i k)
  case Nil
  then show ?case by simp
next
  case (Cons r rows)
  obtain name rest where r: "r = (name, rest)" by (cases r)
  show ?case
  proof (cases i)
    case 0
    with Cons.prems r show ?thesis by simp
  next
    case (Suc i')
    with Cons.prems r have "name \<noteq> []" by simp
    moreover from Suc Cons.prems have "empty_name_row rows (k + 1) = Some (k + 1 + i')"
      by (intro Cons.IH) simp_all
    ultimately show ?thesis using r Suc by simp
  qed
qed

lemma check_rows_stops:
  assumes "k < length rows"
    and "list_all (\<lambda>r. \<not> isl (check_row rt r)) (take k rows)"
    and "check_row rt (rows ! k) = Inl out"
  shows "check_rows rt rows = (map normalized (take k rows) @ drop k rows, out)"
  using assms
proof (induction rows arbitrary: k)
  case Nil
  then show ?case by simp
next
  case (Cons r rows)
  show ?case
  proof (cases k)
    case 0
    with Cons.prems show ?thesis by simp
  next
    case (Suc k')
    with Cons.prems obtain r' where r': "check_row rt r = Inr r'"
      by (cases "check_row rt r") simp_all
    from Suc Cons.prems
    have "check_rows rt rows = (map normalized (take k' rows) @ drop k' rows, out)"
      by (intro Cons.IH) simp_all
    with r' Suc show ?thesis
      by (simp add: check_row_Inr)
  qed
qed

lemma digit_value_table:
  "list_all (\<lambda>d. of_char (''0123456789'' ! d) - 48 = (d::nat)) [0..<10]"
  by code_simp

lemma digit_value: "d < 10 \<Longrightarrow> of_char (''0123456789'' ! d) - 48 = (d::nat)"
  using digit_value_table unfolding list_all_iff by simp

lemma dec_nat_snoc: "dec_nat (s @ [c]) = 10 * dec_nat s + (of_char c - 48)"
  by (simp add: dec_nat_def)

lemma dec_nat_str_of_nat: "dec_nat (str_of_nat n) = n"
proof (induction n rule: str_of_nat.induct)
  case (1 n)
  show ?case
  proof (cases "n < 10")
    case True
    then show ?thesis
      by (subst str_of_nat.simps) (simp add: dec_nat_def digit_value)
  next
    case False
    with 1 have "dec_nat (str_of_nat (n div 10)) = n div 10" by simp
    with False show ?thesis
      by (subst str_of_nat.simps) (simp add: dec_nat_snoc digit_value)
  qed
qed

lemma empty_name_row_names:
  "map fst rows = map fst rows' \<Longrightarrow> empty_name_row rows k = empty_name_row rows' k"
proof (induction rows arbitrary: rows' k)
  case Nil
  then show ?case by simp
next
  case (Cons r rows)
  then obtain r' rs' where "rows' = r' # rs'" by (cases rows') auto
  with Cons show ?case
    by (cases r; cases r') auto
qed

lemma repeated_name_names:
  "map fst rows = map fst rows' \<Longrightarrow> repeated_name rows seen = repeated_name rows' seen"
proof (induction rows arbitrary: rows' seen)
  case Nil
  then show ?case by simp
next
  case (Cons r rows)
  then obtain r' rs' where "rows' = r' # rs'" by (cases rows') auto
  with Cons show ?case
    by (cases r; cases r') auto
qed

lemma check_rows_accepted:
  "check_rows rt rows = (rows', Inr (True, None))
   \<Longrightarrow> list_all2 (\<lambda>r r'. check_row rt r = Inr r') rows rows'"
proof (induction rows arbitrary: rows')
  case Nil
  then show ?case by simp
next
  case (Cons r rows)
  show ?case
  proof (cases "check_row rt r")
    case (Inl out)
    with Cons.prems check_row_not_accept [OF Inl] show ?thesis by simp
  next
    case (Inr r1)
    obtain rs1 out1 where rec: "check_rows rt rows = (rs1, out1)"
      by (cases "check_rows rt rows")
    with Inr Cons.prems have "rows' = r1 # rs1" and "out1 = Inr (True, None)"
      by simp_all
    with rec Inr Cons.IH [of rs1] show ?thesis by simp
  qed
qed

lemma check_rows_all_pass:
  "list_all (\<lambda>r. check_row rt r = Inr r) rows \<Longrightarrow> check_rows rt rows = (rows, Inr (True, None))"
  by (induction rows) simp_all

lemma formatStrValue_bool_range:
  "formatStrValue ''bool'' v = Some v1 \<Longrightarrow> v1 = ''1'' \<or> v1 = ''0''"
  unfolding formatStrValue_def by (simp split: if_splits)

lemma formatStrValue_stable:
  assumes "formatStrValue dtype v = Some v1"
    and "\<not> (startswith dtype ''complex'' \<and> startswith v1 ''('' \<and> endswith v1 '')'')"
  shows "formatStrValue dtype v1 = Some v1"
proof (cases "dtype = ''bool''")
  case True
  with assms(1) have "v1 = ''1'' \<or> v1 = ''0''"
    by (simp add: formatStrValue_bool_range)
  then show ?thesis
  proof
    assume "v1 = ''1''"
    with True show ?thesis by (simp add: formatStrValue_def)
  next
    assume "v1 = ''0''"
    with True show ?thesis by (simp add: formatStrValue_def)
  qed
next
  case False
  show ?thesis
  proof (cases "startswith dtype ''complex''")
    case True
    with assms(2) have "\<not> (startswith v1 ''('' \<and> endswith v1 '')'')" by simp
    then have "(if startswith v1 ''('' \<and> endswith v1 '')'' then Some (py_slice 1 (- 1) v1)
                else Some v1) = Some v1"
      by (rule if_not_P)
    with False True show ?thesis by (simp add: formatStrValue_def)
  next
    case nc: False
    with False assms(1) have "v1 = v" by (simp add: formatStrValue_def)
    with False nc show ?thesis by (simp add: formatStrValue_def)
  qed
qed

lemma check_row_stable:
  assumes "check_row rt r = Inr r'" and "\<not> wrapped_complex r'"
  shows "check_row rt r' = Inr r'"
proof -
  obtain name val dtype multidim where r: "r = (name, val, dtype, multidim)"
    by (cases r)
  show ?thesis
  proof (cases "multidim \<or> dtype = ''python''")
    case True
    with assms(1) r have "r' = r"
      by (auto simp: check_row_def split: if_splits sum.splits)
    with assms(1) show ?thesis by simp
  next
    case False
    with assms(1) r obtain v1 where
      f: "formatStrValue dtype val = Some v1" and
      t: "try_convert rt dtype v1 = Inr v1" and
      r': "r' = (name, v1, dtype, multidim)"
      by (auto simp: check_row_def split: if_splits sum.splits option.splits
          dest: try_convert_same)
    from assms(2) r' False
    have "\<not> (startswith dtype ''complex'' \<and> startswith v1 ''('' \<and> endswith v1 '')'')"
      by (simp add: wrapped_complex_def)
    with f have "formatStrValue dtype v1 = Some v1"
      by (rule formatStrValue_stable)
    with t r' False show ?thesis
      by (simp add: check_row_def)
  qed
qed

lemma accepted_phases:
  assumes "checkAttributes rt rows = (rows', Inr (True, None))"
  shows "empty_name_row rows 0 = None" and "repeated_name rows [] = None"
    and "check_rows rt rows = (rows', Inr (True, None))"
  using assms
  by (auto simp: checkAttributes_def split: option.splits)

lemma accepted_rows:
  assumes "checkAttributes rt rows = (rows', Inr (True, None))"
  shows "list_all2 (\<lambda>r r'. check_row rt r = Inr r') rows rows'"
  using accepted_phases(3) [OF assms] by (rule check_rows_accepted)

lemma accepted_names:
  assumes "list_all2 (\<lambda>r r'. check_row rt r = Inr r') rows rows'"
  shows "map fst rows = map fst rows'"
  using assms
  by (induction rule: list_all2_induct) (auto dest!: check_row_Inr simp: fst_normalized)

text \<open>
  C7. When the row \<open>i\<close> (counted from 0) is the first row whose name is empty,
  multidimensional or not, \<open>checkAttributes\<close> returns \<open>False\<close> with the message of the
  empty name, which ends with the decimal text of \<open>i + 1\<close>, and leaves the rows as
  they are. This holds whatever the other rows hold and whatever the runtime does:
  the check comes before the check for repeated names and before the check of the
  values.
\<close>

theorem empty_name_reported_first:
  assumes "i < length rows" and "fst (rows ! i) = []"
    and "list_all (\<lambda>r. fst r \<noteq> []) (take i rows)"
  shows "checkAttributes rt rows = (rows, Inr (False, Some (empty_name_error (i + 1))))
         \<and> empty_name_error (i + 1)
             = [CHR 0x0A] @ ''Error: empty field Name in the row '' @ str_of_nat (i + 1)
         \<and> dec_nat (str_of_nat (i + 1)) = i + 1"
  using empty_name_row_first [OF assms, of 0]
  by (simp add: checkAttributes_def empty_name_error_def dec_nat_str_of_nat)

theorem empty_name_reported_first_witness:
  "checkAttributes sample_rt
     [(''a'', ''x'', ''int8'', False), (''a'', ''999'', ''uint8'', False),
      ([], [], ''python'', True)]
   = ([(''a'', ''x'', ''int8'', False), (''a'', ''999'', ''uint8'', False),
       ([], [], ''python'', True)],
      Inr (False, Some ([CHR 0x0A] @ ''Error: empty field Name in the row 3'')))"
proof -
  let ?rows = "[(''a'', ''x'', ''int8'', False), (''a'', ''999'', ''uint8'', False),
      ([], [], ''python'', True)] :: row list"
  have a: "2 < length ?rows" by simp
  have b: "fst (?rows ! 2) = []" by simp
  have c: "list_all (\<lambda>r. fst r \<noteq> []) (take 2 ?rows)" by simp
  have d: "str_of_nat (2 + 1) = ''3''" by (simp add: str_of_nat.simps)
  show ?thesis
    using empty_name_reported_first [OF a b c, of sample_rt] d by simp
qed

text \<open>
  C10. When \<open>checkAttributes\<close> stops in the loop of the empty names or in the loop of
  the repeated names, it returns \<open>False\<close> with a message and the rows are unchanged.
  When it stops in the third loop at the row \<open>k\<close>, the rows before \<open>k\<close> hold their
  normalized forms, and the row \<open>k\<close> and the rows after it are unchanged.
\<close>

theorem failed_validation_rows:
  "(empty_name_row rows 0 \<noteq> None \<longrightarrow>
      (\<exists>m. checkAttributes rt rows = (rows, Inr (False, Some m))))
   \<and> (empty_name_row rows 0 = None \<and> repeated_name rows [] \<noteq> None \<longrightarrow>
      (\<exists>m. checkAttributes rt rows = (rows, Inr (False, Some m))))
   \<and> (empty_name_row rows 0 = None \<and> repeated_name rows [] = None \<and> k < length rows
        \<and> list_all (\<lambda>r. \<not> isl (check_row rt r)) (take k rows)
        \<and> check_row rt (rows ! k) = Inl out \<longrightarrow>
      checkAttributes rt rows = (map normalized (take k rows) @ drop k rows, out))"
  by (auto simp: checkAttributes_def check_rows_stops)

theorem failed_validation_rows_witness:
  "checkAttributes sample_rt [([], ''TRUE'', ''bool'', False)]
     = ([([], ''TRUE'', ''bool'', False)], Inr (False, Some (empty_name_error 1)))
   \<and> checkAttributes sample_rt [(''b'', ''TRUE'', ''bool'', False), (''b'', ''x'', ''int8'', False)]
     = ([(''b'', ''TRUE'', ''bool'', False), (''b'', ''x'', ''int8'', False)],
        Inr (False, Some (repeated_name_error ''b'')))
   \<and> checkAttributes sample_rt [(''b'', ''TRUE'', ''bool'', False), (''c'', ''x'', ''int8'', False)]
     = ([(''b'', ''1'', ''bool'', False), (''c'', ''x'', ''int8'', False)],
        Inr (False, Some (dtype_error ''c'')))"
proof -
  let ?r1 = "[([], ''TRUE'', ''bool'', False)] :: row list"
  let ?r2 = "[(''b'', ''TRUE'', ''bool'', False), (''b'', ''x'', ''int8'', False)] :: row list"
  let ?r3 = "[(''b'', ''TRUE'', ''bool'', False), (''c'', ''x'', ''int8'', False)] :: row list"
  let ?out = "Inr (False, Some (dtype_error ''c'')) :: exc + verdict"
  have h1: "empty_name_row ?r1 0 \<noteq> None" by simp
  have h2: "empty_name_row ?r2 0 = None \<and> repeated_name ?r2 [] \<noteq> None" by simp
  have h3: "empty_name_row ?r3 0 = None \<and> repeated_name ?r3 [] = None \<and> 1 < length ?r3
        \<and> list_all (\<lambda>r. \<not> isl (check_row sample_rt r)) (take 1 ?r3)
        \<and> check_row sample_rt (?r3 ! 1) = Inl ?out"
    by code_simp
  have c1: "\<exists>m. checkAttributes sample_rt ?r1 = (?r1, Inr (False, Some m))"
    using failed_validation_rows [of ?r1 sample_rt] h1 by blast
  have c2: "\<exists>m. checkAttributes sample_rt ?r2 = (?r2, Inr (False, Some m))"
    using failed_validation_rows [of ?r2 sample_rt] h2 by blast
  have c3: "checkAttributes sample_rt ?r3 = (map normalized (take 1 ?r3) @ drop 1 ?r3, ?out)"
    using failed_validation_rows [of ?r3 sample_rt 1 ?out] h3 by blast
  have n: "map normalized (take 1 ?r3) @ drop 1 ?r3
      = [(''b'', ''1'', ''bool'', False), (''c'', ''x'', ''int8'', False)]"
    by (simp add: normalized_def formatStrValue_def)
  from c1 have d1: "checkAttributes sample_rt ?r1 = (?r1, Inr (False, Some (empty_name_error 1)))"
    by (auto simp: checkAttributes_def)
  from c2 have d2: "checkAttributes sample_rt ?r2 = (?r2, Inr (False, Some (repeated_name_error ''b'')))"
    by (auto simp: checkAttributes_def)
  from d1 d2 c3 n show ?thesis by simp
qed

text \<open>
  C8, as amended. When \<open>checkAttributes\<close> has accepted a set, and no scalar row of a
  complex type is left with a value that starts with an opening and ends with a
  closing parenthesis, \<open>checkAttributes\<close> accepts the resulting rows again and
  leaves every one of them unchanged.
\<close>

theorem validation_idempotent:
  assumes "checkAttributes rt rows = (rows', Inr (True, None))"
    and "list_all (\<lambda>r. \<not> wrapped_complex r) rows'"
  shows "checkAttributes rt rows' = (rows', Inr (True, None))"
proof -
  note rel = accepted_rows [OF assms(1)]
  have names: "map fst rows' = map fst rows"
    using accepted_names [OF rel] by simp
  have e: "empty_name_row rows' 0 = None"
    using empty_name_row_names [OF names] accepted_phases(1) [OF assms(1)] by simp
  have d: "repeated_name rows' [] = None"
    using repeated_name_names [OF names] accepted_phases(2) [OF assms(1)] by simp
  from rel assms(2) have "list_all (\<lambda>r. check_row rt r = Inr r) rows'"
    by (induction rule: list_all2_induct) (auto intro: check_row_stable)
  then have "check_rows rt rows' = (rows', Inr (True, None))"
    by (rule check_rows_all_pass)
  with e d show ?thesis
    by (simp add: checkAttributes_def)
qed

theorem validation_idempotent_witness:
  "checkAttributes sample_rt
     [(''b'', ''TRUE'', ''bool'', False), (''z'', ''(1+2j)'', ''complex128'', False)]
     = ([(''b'', ''1'', ''bool'', False), (''z'', ''1+2j'', ''complex128'', False)],
        Inr (True, None))
   \<and> list_all (\<lambda>r. \<not> wrapped_complex r)
        [(''b'', ''1'', ''bool'', False), (''z'', ''1+2j'', ''complex128'', False)]
   \<and> checkAttributes sample_rt
        [(''b'', ''1'', ''bool'', False), (''z'', ''1+2j'', ''complex128'', False)]
      = ([(''b'', ''1'', ''bool'', False), (''z'', ''1+2j'', ''complex128'', False)],
         Inr (True, None))"
proof -
  have a: "checkAttributes sample_rt
     [(''b'', ''TRUE'', ''bool'', False), (''z'', ''(1+2j)'', ''complex128'', False)]
     = ([(''b'', ''1'', ''bool'', False), (''z'', ''1+2j'', ''complex128'', False)],
        Inr (True, None))"
    by code_simp
  have b: "list_all (\<lambda>r. \<not> wrapped_complex r)
        [(''b'', ''1'', ''bool'', False), (''z'', ''1+2j'', ''complex128'', False)]"
    by code_simp
  show ?thesis
    using a b validation_idempotent [OF a b] by simp
qed

text \<open>
  C8, as stated, fails on a complex value in two pairs of parentheses, under a
  runtime whose conversion reads a complex literal in parentheses: the first run
  accepts the set and strips one pair, the second run accepts it and strips the
  other, so the stored value changes again.
\<close>

theorem validation_not_idempotent:
  "checkAttributes sample_rt [(''z'', ''((1+2j))'', ''complex128'', False)]
     = ([(''z'', ''(1+2j)'', ''complex128'', False)], Inr (True, None))
   \<and> checkAttributes sample_rt [(''z'', ''(1+2j)'', ''complex128'', False)]
     = ([(''z'', ''1+2j'', ''complex128'', False)], Inr (True, None))"
  by code_simp

subsection \<open>The commit\<close>

lemma has_key_unicode: "has_key rows (UnicodeKey k) = False"
  by (auto simp: has_key_def keys_def)

lemma deleted_attrs_set:
  "set (deleted_attrs rt ops s rows) = set (v_attrnamesuser ops s) - set (map fst rows)"
  by (auto simp: deleted_attrs_def has_key_unicode Let_def)

lemma deleted_attrs_distinct: "distinct (deleted_attrs rt ops s rows)"
  by (simp add: deleted_attrs_def Let_def)

lemma map_filter_append:
  "List.map_filter f (xs @ ys) = List.map_filter f xs @ List.map_filter f ys"
  by (simp add: List.map_filter_def)

lemma map_Some_raised:
  "map Some (List.map_filter (\<lambda>r. r) rs) = filter (\<lambda>r. r \<noteq> None) rs"
  by (induction rs) (auto split: option.splits)

lemma run_calls_append:
  "run_calls ops s (xs @ ys) =
     (case run_calls ops s xs of
        (s', rs) \<Rightarrow> (case run_calls ops s' ys of (s'', rs') \<Rightarrow> (s'', rs @ rs')))"
  by (induction xs arbitrary: s) (simp_all split: prod.splits)

lemma delete_loop_run:
  "delete_loop ops c attrs =
     \<lparr>asi = fst (run_calls ops (asi c) (map DelAttr attrs)),
      calls = calls c @ map DelAttr attrs,
      reported = reported c
        @ List.map_filter (\<lambda>r. r) (snd (run_calls ops (asi c) (map DelAttr attrs)))\<rparr>"
proof (induction attrs arbitrary: c)
  case Nil
  then show ?case by simp
next
  case (Cons a attrs)
  show ?case
    by (simp add: Cons.IH del_step_def run_call_def split: prod.splits option.splits)
qed

lemma write_loop_run:
  assumes "list_all (builds rt) rows"
  shows "write_loop rt ops c rows =
     (\<lparr>asi = fst (run_calls ops (asi c) (planned_writes rt rows)),
       calls = calls c @ planned_writes rt rows,
       reported = reported c
         @ List.map_filter (\<lambda>r. r) (snd (run_calls ops (asi c) (planned_writes rt rows)))\<rparr>,
      None)"
  using assms
proof (induction rows arbitrary: c)
  case Nil
  then show ?case by (simp add: planned_writes_def scalar_rows_def)
next
  case (Cons r rows)
  obtain name val dtype multidim where r: "r = (name, val, dtype, multidim)"
    by (cases r)
  from Cons.prems have rest: "list_all (builds rt) rows" by simp
  show ?case
  proof (cases multidim)
    case True
    with r Cons.IH [OF rest] show ?thesis
      by (simp add: planned_writes_def scalar_rows_def)
  next
    case False
    with Cons.prems r obtain v where v: "row_value rt dtype val = Inr v"
      by (cases "row_value rt dtype val") (simp_all add: builds_def)
    have p: "planned_writes rt ((name, val, dtype, multidim) # rows)
               = SetAttr name v # planned_writes rt rows"
      using False v by (simp add: planned_writes_def scalar_rows_def)
    show ?thesis
      unfolding r using False v Cons.IH [OF rest] p
      by (simp add: set_step_def run_call_def split: prod.splits option.splits)
  qed
qed

lemma planned_writes_names:
  assumes "list_all (builds rt) rows"
  shows "map call_name (planned_writes rt rows) = map fst (scalar_rows rows)"
  using assms
proof (induction rows)
  case Nil
  then show ?case by (simp add: planned_writes_def scalar_rows_def)
next
  case (Cons r rows)
  obtain name val dtype multidim where r: "r = (name, val, dtype, multidim)"
    by (cases r)
  from Cons have ih: "map call_name (planned_writes rt rows) = map fst (scalar_rows rows)"
    by simp
  show ?case
  proof (cases multidim)
    case True
    with r ih show ?thesis by (simp add: planned_writes_def scalar_rows_def)
  next
    case False
    with Cons.prems r obtain v where v: "row_value rt dtype val = Inr v"
      by (cases "row_value rt dtype val") (simp_all add: builds_def)
    with r False ih show ?thesis by (simp add: planned_writes_def scalar_rows_def)
  qed
qed

lemma check_row_builds:
  assumes "check_row rt r = Inr r'"
  shows "builds rt r'"
proof -
  obtain name val dtype multidim where r: "r = (name, val, dtype, multidim)"
    by (cases r)
  show ?thesis
  proof (cases multidim)
    case True
    with assms r show ?thesis by (auto simp: check_row_def builds_def)
  next
    case False
    show ?thesis
    proof (cases "dtype = ''python''")
      case True
      with assms r False show ?thesis
        by (auto simp: check_row_def builds_def row_value_def checkSyntax_def
            split: sum.splits list.splits if_splits)
    next
      case np: False
      with assms r False obtain v1 where
        t: "try_convert rt dtype v1 = Inr v1" and r': "r' = (name, v1, dtype, multidim)"
        by (auto simp: check_row_def split: if_splits sum.splits option.splits
            dest: try_convert_same)
      from t have "\<not> isl (np_astype rt v1 dtype)"
        by (auto simp: try_convert_def split: sum.splits dest: checkOverflow_same)
      with r' False np show ?thesis
        by (simp add: builds_def row_value_def)
    qed
  qed
qed

lemma accepted_builds:
  assumes "checkAttributes rt rows0 = (rows, Inr (True, None))"
  shows "list_all (builds rt) rows"
  using accepted_rows [OF assms]
  by (induction rule: list_all2_induct) (auto intro: check_row_builds)

lemma setAttributes_run:
  assumes "list_all (builds rt) rows"
  shows "setAttributes rt ops s rows =
     (\<lparr>asi = fst (run_calls ops s
                 (map DelAttr (deleted_attrs rt ops s rows) @ planned_writes rt rows)),
       calls = map DelAttr (deleted_attrs rt ops s rows) @ planned_writes rt rows,
       reported = List.map_filter (\<lambda>r. r)
                    (snd (run_calls ops s
                       (map DelAttr (deleted_attrs rt ops s rows) @ planned_writes rt rows)))\<rparr>,
      None)"
  by (simp add: setAttributes_def write_loop_run [OF assms] delete_loop_run run_calls_append
      map_filter_append split: prod.splits)

lemma write_loop_calls:
  "\<exists>ws. calls (fst (write_loop rt ops c rows)) = calls c @ ws \<and> list_all (\<lambda>w. \<not> is_del w) ws"
proof (induction rows arbitrary: c)
  case Nil
  then show ?case by simp
next
  case (Cons r rows)
  obtain name val dtype multidim where r: "r = (name, val, dtype, multidim)"
    by (cases r)
  show ?case
  proof (cases "multidim")
    case True
    with r Cons.IH [of c] show ?thesis by simp
  next
    case False
    show ?thesis
    proof (cases "row_value rt dtype val")
      case (Inl e)
      with r False show ?thesis by simp
    next
      case (Inr v)
      from Cons.IH [of "set_step ops c name v"] obtain ws where
        "calls (fst (write_loop rt ops (set_step ops c name v) rows))
           = calls (set_step ops c name v) @ ws" and "list_all (\<lambda>w. \<not> is_del w) ws"
        by blast
      with r False Inr show ?thesis
        by (auto simp: set_step_def split: prod.splits intro!: exI [of _ "SetAttr name v # ws"])
    qed
  qed
qed

lemma setAttributes_deletions:
  "filter is_del (calls (fst (setAttributes rt ops s rows)))
     = map DelAttr (deleted_attrs rt ops s rows)"
proof -
  let ?c = "delete_loop ops \<lparr>asi = s, calls = [], reported = []\<rparr> (deleted_attrs rt ops s rows)"
  from write_loop_calls [of rt ops ?c rows] obtain ws where
    w: "calls (fst (write_loop rt ops ?c rows)) = calls ?c @ ws"
    and n: "list_all (\<lambda>w. \<not> is_del w) ws"
    by blast
  from n have "filter is_del ws = []"
    by (induction ws) simp_all
  moreover have "filter is_del (map DelAttr (deleted_attrs rt ops s rows))
      = map DelAttr (deleted_attrs rt ops s rows)"
    by (induction "deleted_attrs rt ops s rows") (simp_all add: filter_map comp_def)
  ultimately show ?thesis
    using w by (simp add: setAttributes_def delete_loop_run)
qed

lemma scenario_accepted:
  "checkAttributes sample_rt scenario_rows = (scenario_rows, Inr (True, None))"
  by code_simp

lemma scenario_commit:
  "setAttributes sample_rt (sample_ops [] []) sample_store scenario_rows =
     (\<lparr>asi = [(''A'', NumpyScalar ''int8'' ''5''),
              (''TITLE'', NumpyScalar ''string'' ''old title''),
              (''C'', NumpyScalar ''int8'' ''7'')],
       calls = [DelAttr ''B'', SetAttr ''A'' (NumpyScalar ''int8'' ''5''),
                SetAttr ''C'' (NumpyScalar ''int8'' ''7'')],
       reported = []\<rparr>, None)"
  by code_simp

lemma scenario_builds: "list_all (builds sample_rt) scenario_rows"
  using accepted_builds [OF scenario_accepted] .

text \<open>
  C9. The values are built outside the \<open>try\<close> blocks; when the value of every scalar
  row can be built, as it can for rows that \<open>checkAttributes\<close> has accepted,
  \<open>setAttributes\<close> returns normally whatever the calls on the instance raise. It makes
  one deletion for every attribute to delete and then one write for every scalar row,
  under the name of the row and in the order of the rows. The exceptions handed to
  the error report are the exceptions these calls raise, every one of them and in
  order. The instance it leaves is the one reached by these calls one after the
  other, so nothing done by an earlier call is undone.
\<close>

theorem commit_survives_store_failures:
  assumes "list_all (builds rt) rows"
  shows "snd (setAttributes rt ops s rows) = None
         \<and> calls (fst (setAttributes rt ops s rows))
             = map DelAttr (deleted_attrs rt ops s rows) @ planned_writes rt rows
         \<and> map call_name (planned_writes rt rows) = map fst (scalar_rows rows)
         \<and> asi (fst (setAttributes rt ops s rows))
             = fst (run_calls ops s (calls (fst (setAttributes rt ops s rows))))
         \<and> map Some (reported (fst (setAttributes rt ops s rows)))
             = filter (\<lambda>r. r \<noteq> None)
                 (snd (run_calls ops s (calls (fst (setAttributes rt ops s rows)))))"
  by (simp add: setAttributes_run [OF assms] planned_writes_names [OF assms] map_Some_raised)

theorem commit_survives_store_failures_witness:
  "list_all (builds sample_rt) scenario_rows
   \<and> setAttributes sample_rt
        (raising_ops [(''B'', TypeError), (''E'', IndexError)] [(''A'', ValueError)])
        (sample_store @ [(''D'', NumpyScalar ''int8'' ''4''), (''E'', NumpyScalar ''int8'' ''6'')])
        scenario_rows
     = (\<lparr>asi = [(''A'', NumpyScalar ''int8'' ''1''), (''B'', NumpyScalar ''int8'' ''2''),
                (''TITLE'', NumpyScalar ''string'' ''old title''),
                (''E'', NumpyScalar ''int8'' ''6''), (''C'', NumpyScalar ''int8'' ''7'')],
         calls = [DelAttr ''B'', DelAttr ''D'', DelAttr ''E'',
                  SetAttr ''A'' (NumpyScalar ''int8'' ''5''),
                  SetAttr ''C'' (NumpyScalar ''int8'' ''7'')],
         reported = [TypeError, IndexError, ValueError]\<rparr>, None)"
proof -
  let ?ops = "raising_ops [(''B'', TypeError), (''E'', IndexError)] [(''A'', ValueError)]"
  let ?s = "sample_store @ [(''D'', NumpyScalar ''int8'' ''4''), (''E'', NumpyScalar ''int8'' ''6'')]"
  let ?r = "setAttributes sample_rt ?ops ?s scenario_rows"
  let ?calls = "[DelAttr ''B'', DelAttr ''D'', DelAttr ''E'',
                 SetAttr ''A'' (NumpyScalar ''int8'' ''5''),
                 SetAttr ''C'' (NumpyScalar ''int8'' ''7'')]"
  let ?asi = "[(''A'', NumpyScalar ''int8'' ''1''), (''B'', NumpyScalar ''int8'' ''2''),
               (''TITLE'', NumpyScalar ''string'' ''old title''),
               (''E'', NumpyScalar ''int8'' ''6''), (''C'', NumpyScalar ''int8'' ''7'')]"
  note t = commit_survives_store_failures [OF scenario_builds, of ?ops ?s]
  have d: "deleted_attrs sample_rt ?ops ?s scenario_rows = [''B'', ''D'', ''E'']"
    by code_simp
  have w: "planned_writes sample_rt scenario_rows
             = [SetAttr ''A'' (NumpyScalar ''int8'' ''5''), SetAttr ''C'' (NumpyScalar ''int8'' ''7'')]"
    by code_simp
  have r: "run_calls ?ops ?s ?calls
             = (?asi, [Some TypeError, None, Some IndexError, Some ValueError, None])"
    by code_simp
  from t have n: "snd ?r = None"
    by blast
  from t have "calls (fst ?r)
      = map DelAttr (deleted_attrs sample_rt ?ops ?s scenario_rows)
          @ planned_writes sample_rt scenario_rows"
    by blast
  then have c: "calls (fst ?r) = ?calls"
    by (simp only: d w list.map append.simps)
  from t have "asi (fst ?r) = fst (run_calls ?ops ?s (calls (fst ?r)))"
    by blast
  then have a: "asi (fst ?r) = ?asi"
    by (simp only: c r fst_conv)
  from t have "map Some (reported (fst ?r))
      = filter (\<lambda>r. r \<noteq> None) (snd (run_calls ?ops ?s (calls (fst ?r))))"
    by blast
  then have "map Some (reported (fst ?r))
      = filter (\<lambda>r. r \<noteq> None) [Some TypeError, None, Some IndexError, Some ValueError, None]"
    by (simp only: c r snd_conv)
  then have "map Some (reported (fst ?r)) = map Some [TypeError, IndexError, ValueError]"
    by simp
  then have p: "reported (fst ?r) = [TypeError, IndexError, ValueError]"
    by (simp only: inj_map_eq_map [OF inj_Some])
  obtain cm e where cm: "?r = (cm, e)"
    by (cases ?r)
  with n c a p have "e = None" and "calls cm = ?calls" and "asi cm = ?asi"
    and "reported cm = [TypeError, IndexError, ValueError]"
    by simp_all
  with cm have "?r = (\<lparr>asi = ?asi, calls = ?calls,
                        reported = [TypeError, IndexError, ValueError]\<rparr>, None)"
    by (cases cm) simp
  with scenario_builds show ?thesis by simp
qed

text \<open>
  C2, as amended. \<open>setAttributes\<close> requests the deletion of exactly the user attribute
  names of the instance that are not names of the edited set, each once; TITLE is
  not added to them, since no key of \<open>edited_attrs\<close> is the string TITLE. In the
  scenario, B is deleted, TITLE is kept, A is updated and C is created.
\<close>

theorem deletions_are_user_attrs_not_edited:
  "set (deleted_attrs rt ops s rows) = set (v_attrnamesuser ops s) - set (map fst rows)
   \<and> distinct (deleted_attrs rt ops s rows)
   \<and> filter is_del (calls (fst (setAttributes rt ops s rows)))
       = map DelAttr (deleted_attrs rt ops s rows)
   \<and> (let st = map_of (asi (fst (setAttributes sample_rt (sample_ops [] []) sample_store
                                  scenario_rows)))
      in st ''B'' = None
         \<and> st ''TITLE'' = Some (NumpyScalar ''string'' ''old title'')
         \<and> st ''A'' = Some (NumpyScalar ''int8'' ''5'')
         \<and> st ''C'' = Some (NumpyScalar ''int8'' ''7''))"
  by (simp add: deleted_attrs_set deleted_attrs_distinct setAttributes_deletions scenario_commit)

text \<open>
  C2, as stated, has TITLE deleted in the scenario. There the edited set is accepted,
  and after the commit the instance still holds TITLE: no deletion of TITLE is
  requested.
\<close>

theorem title_not_deleted:
  "map fst sample_store = [''A'', ''B'', ''TITLE'']
   \<and> map fst scenario_rows = [''A'', ''C'']
   \<and> checkAttributes sample_rt scenario_rows = (scenario_rows, Inr (True, None))
   \<and> map fst (asi (fst (setAttributes sample_rt (sample_ops [] []) sample_store scenario_rows)))
       = [''A'', ''TITLE'', ''C'']
   \<and> DelAttr ''TITLE''
       \<notin> set (calls (fst (setAttributes sample_rt (sample_ops [] []) sample_store scenario_rows)))"
  by (simp add: scenario_accepted scenario_commit)
    (simp add: sample_store_def scenario_rows_def AttrEditor_init_def)

end
